theory Spec2Isabelle
  imports Main "HOL-Library.Word"
begin

section \<open>Shared data model of \<open>pkg/syncer/util.go\<close>\<close>

text \<open>
  An error value of Go's \<open>error\<close> interface, identified by its message.
\<close>

datatype error = Error string

text \<open>
  Constants that \<open>util.go\<close> imports from other packages of the driver
  (\<open>csitypes.Name\<close>, \<open>common.AnnMigratedTo\<close>, \<open>common.AnnStorageProvisioner\<close>,
  \<open>common.AnnDynamicallyProvisioned\<close>, \<open>common.InTreePluginName\<close>) and the page size
  \<open>queryVolumeLimit\<close> of package \<open>syncer\<close>. They are declared outside \<open>util.go\<close>,
  so every function below takes them as a parameter and every result holds whatever
  their values are, unless a theorem says otherwise.
\<close>

record plugin_consts =
  Name :: string
  AnnMigratedTo :: string
  AnnStorageProvisioner :: string
  AnnDynamicallyProvisioned :: string
  InTreePluginName :: string
  queryVolumeLimit :: "64 word"

text \<open>
  The values the driver's documentation shows for these names; the page size is the
  one of the paging scenario with pages of two records.
\<close>

definition sample_consts :: plugin_consts where
  "sample_consts =
     \<lparr> Name = ''csi.vsphere.vmware.com'',
       AnnMigratedTo = ''pv.kubernetes.io/migrated-to'',
       AnnStorageProvisioner = ''volume.beta.kubernetes.io/storage-provisioner'',
       AnnDynamicallyProvisioned = ''pv.kubernetes.io/provisioned-by'',
       InTreePluginName = ''kubernetes.io/vsphere-volume'',
       queryVolumeLimit = 2 \<rparr>"

section \<open>The paginated catalog query: \<open>fullSyncGetQueryResults\<close>\<close>

text \<open>
  \<open>cnstypes.CnsCursor\<close>, \<open>cnstypes.CnsQueryFilter\<close> and \<open>cnstypes.CnsQueryResult\<close>,
  with the fields the function reads or writes. The three cursor fields are \<open>int64\<close>.
  The filter's \<open>Cursor\<close> is a pointer that the function never leaves nil. The payload
  of a volume record is left open (type \<open>'v\<close>).
\<close>

record CnsCursor =
  Offset :: "64 word"
  Limit :: "64 word"
  TotalRecords :: "64 word"

record CnsQueryFilter =
  VolumeIds :: "string list"
  ContainerClusterIds :: "string list"
  Cursor :: CnsCursor

record 'v CnsQueryResult =
  Volumes :: "'v list"
  ResultCursor :: CnsCursor

text \<open>
  \<open>volumes.Manager.QueryVolume\<close> is a call to the storage backend. It is modelled as
  a transition on a backend state \<open>'s\<close>: given the state and the filter it answers
  with an error, a nil result (\<open>None\<close>) or a page, and moves to a new state. The
  backend only reads the filter it is given.
\<close>

type_synonym 'v response = "error + 'v CnsQueryResult option"

type_synonym ('s, 'v) manager = "'s \<Rightarrow> CnsQueryFilter \<Rightarrow> 'v response \<times> 's"

text \<open>
  What one run of the function yields: the two values it returns (the slice of pages,
  a nil slice being \<open>[]\<close>, and the error, a nil error being \<open>None\<close>), the backend
  state it leaves behind, and the filters of the \<open>QueryVolume\<close> calls it made, in
  call order.
\<close>

type_synonym ('s, 'v) outcome =
  "('v CnsQueryResult list \<times> error option) \<times> 's \<times> CnsQueryFilter list"

text \<open>
  The \<open>for\<close> loop of lines 142 to 160. \<open>acc\<close> is \<open>allQueryResults\<close>, \<open>flt\<close> is
  \<open>queryFilter\<close>, \<open>calls\<close> records the filters passed to the backend so far. The loop
  has no bound of its own, so a run that never leaves it has the value \<open>None\<close>.
\<close>

partial_function (option) query_loop ::
  "('s, 'v) manager \<Rightarrow> 's \<Rightarrow> CnsQueryFilter \<Rightarrow> 'v CnsQueryResult list \<Rightarrow> CnsQueryFilter list
     \<Rightarrow> ('s, 'v) outcome option"
where
  "query_loop qv s flt acc calls =
     (case qv s flt of
        (Inl err, s') \<Rightarrow> Some (([], Some err), s', calls @ [flt])
      | (Inr None, s') \<Rightarrow> Some ((acc, None), s', calls @ [flt])
      | (Inr (Some queryResult), s') \<Rightarrow>
          if Offset (ResultCursor queryResult) = TotalRecords (ResultCursor queryResult)
          then Some ((acc @ [queryResult], None), s', calls @ [flt])
          else query_loop qv s' (flt\<lparr>Cursor := ResultCursor queryResult\<rparr>)
                 (acc @ [queryResult]) (calls @ [flt]))"

text \<open>The filter built in lines 131 to 140.\<close>

definition initial_filter :: "plugin_consts \<Rightarrow> string list \<Rightarrow> string \<Rightarrow> CnsQueryFilter" where
  "initial_filter k volumeIds clusterID =
     \<lparr> VolumeIds = volumeIds,
       ContainerClusterIds = (if clusterID \<noteq> '''' then [clusterID] else []),
       Cursor = \<lparr> Offset = 0, Limit = queryVolumeLimit k, TotalRecords = 0 \<rparr> \<rparr>"

definition fullSyncGetQueryResults ::
  "plugin_consts \<Rightarrow> string list \<Rightarrow> string \<Rightarrow> ('s, 'v) manager \<Rightarrow> 's \<Rightarrow> ('s, 'v) outcome option"
where
  "fullSyncGetQueryResults k volumeIds clusterID volumeManager s =
     query_loop volumeManager s (initial_filter k volumeIds clusterID) [] []"

subsection \<open>The responses a run meets\<close>

text \<open>
  A response ends the loop when it is an error, a nil result, or a page whose cursor
  has \<open>Offset = TotalRecords\<close>.
\<close>

fun stops :: "'v response \<Rightarrow> bool" where
  "stops (Inl err) = True"
| "stops (Inr None) = True"
| "stops (Inr (Some queryResult)) =
     (Offset (ResultCursor queryResult) = TotalRecords (ResultCursor queryResult))"

text \<open>
  The backend state and the filter of the next call, after a call that returned a page:
  the filter's cursor becomes the page's cursor (line 159). After any other response
  the loop makes no further call; the filter is then kept as it is.
\<close>

fun next_call :: "('s, 'v) manager \<Rightarrow> 's \<times> CnsQueryFilter \<Rightarrow> 's \<times> CnsQueryFilter" where
  "next_call qv (s, flt) =
     (case qv s flt of
        (Inr (Some queryResult), s') \<Rightarrow> (s', flt\<lparr>Cursor := ResultCursor queryResult\<rparr>)
      | (_, s') \<Rightarrow> (s', flt))"

definition call_at :: "('s, 'v) manager \<Rightarrow> 's \<Rightarrow> CnsQueryFilter \<Rightarrow> nat \<Rightarrow> 's \<times> CnsQueryFilter" where
  "call_at qv s flt n = (next_call qv ^^ n) (s, flt)"

text \<open>
  \<open>response_at qv s flt n\<close> is the answer to call number \<open>n\<close> (from 0) of a loop
  started in backend state \<open>s\<close> with filter \<open>flt\<close>, and \<open>state_after\<close> the backend
  state that call leaves.
\<close>

definition response_at :: "('s, 'v) manager \<Rightarrow> 's \<Rightarrow> CnsQueryFilter \<Rightarrow> nat \<Rightarrow> 'v response" where
  "response_at qv s flt n = (case call_at qv s flt n of (s', flt') \<Rightarrow> fst (qv s' flt'))"

definition state_after :: "('s, 'v) manager \<Rightarrow> 's \<Rightarrow> CnsQueryFilter \<Rightarrow> nat \<Rightarrow> 's" where
  "state_after qv s flt n = (case call_at qv s flt n of (s', flt') \<Rightarrow> snd (qv s' flt'))"

definition filters_upto :: "('s, 'v) manager \<Rightarrow> 's \<Rightarrow> CnsQueryFilter \<Rightarrow> nat \<Rightarrow> CnsQueryFilter list" where
  "filters_upto qv s flt n = map (\<lambda>i. snd (call_at qv s flt i)) [0..<n]"

fun pages_of :: "'v response list \<Rightarrow> 'v CnsQueryResult list" where
  "pages_of [] = []"
| "pages_of (Inr (Some queryResult) # rs) = queryResult # pages_of rs"
| "pages_of (_ # rs) = pages_of rs"

definition pages_upto :: "('s, 'v) manager \<Rightarrow> 's \<Rightarrow> CnsQueryFilter \<Rightarrow> nat \<Rightarrow> 'v CnsQueryResult list" where
  "pages_upto qv s flt n = pages_of (map (response_at qv s flt) [0..<n])"

subsection \<open>Two backends to run the loop on\<close>

text \<open>
  A backend that plays a fixed list of responses, one per call, whatever the filter,
  and answers nil once the list is used up.
\<close>

fun scripted :: "('v response list, 'v) manager" where
  "scripted [] flt = (Inr None, [])"
| "scripted (r # rs) flt = (r, rs)"

text \<open>
  A backend that answers every call with the same non-nil page: no records, offset 0,
  five records in total.
\<close>

definition empty_page :: "string CnsQueryResult" where
  "empty_page = \<lparr> Volumes = [], ResultCursor = \<lparr> Offset = 0, Limit = 2, TotalRecords = 5 \<rparr> \<rparr>"

definition stuck :: "(unit, string) manager" where
  "stuck s flt = (Inr (Some empty_page), ())"

text \<open>The pages of the scenario with five records and a page size of two.\<close>

definition page :: "string list \<Rightarrow> 64 word \<Rightarrow> string CnsQueryResult" where
  "page vs off = \<lparr> Volumes = vs, ResultCursor = \<lparr> Offset = off, Limit = 2, TotalRecords = 5 \<rparr> \<rparr>"

definition page1 :: "string CnsQueryResult" where
  "page1 = page [''vol-1'', ''vol-2''] 2"

definition page2 :: "string CnsQueryResult" where
  "page2 = page [''vol-3'', ''vol-4''] 4"

definition page3 :: "string CnsQueryResult" where
  "page3 = page [''vol-5''] 5"

section \<open>Cluster objects\<close>

text \<open>
  The Kubernetes objects of \<open>k8s.io/api/core/v1\<close>, with the fields that \<open>util.go\<close>
  reads. A pointer field that may be nil is an \<open>option\<close>. Annotations are a Go
  \<open>map[string]string\<close>.
\<close>

record ObjectMeta =
  ObjName :: string
  Namespace :: string
  Annotations :: "string \<rightharpoonup> string"

record CSIPersistentVolumeSource =
  Driver :: string
  VolumeHandle :: string

record VsphereVirtualDiskVolumeSource =
  VolumePath :: string
  StoragePolicyName :: string

record PersistentVolume =
  pv_ObjectMeta :: ObjectMeta
  pv_Spec_CSI :: "CSIPersistentVolumeSource option"
  pv_Spec_VsphereVolume :: "VsphereVirtualDiskVolumeSource option"
  pv_Status_Phase :: string

record PersistentVolumeClaim =
  pvc_ObjectMeta :: ObjectMeta
  pvc_Spec_VolumeName :: string
  pvc_Spec_StorageClassName :: "string option"

text \<open>
  A pod volume: \<open>vol_PersistentVolumeClaim\<close> holds the \<open>ClaimName\<close> of the volume's
  claim source when the volume has one, \<open>vol_VsphereVolume\<close> its inline vSphere disk.
\<close>

record Volume =
  vol_Name :: string
  vol_PersistentVolumeClaim :: "string option"
  vol_VsphereVolume :: "VsphereVirtualDiskVolumeSource option"

record Pod =
  pod_ObjectMeta :: ObjectMeta
  pod_Spec_Volumes :: "Volume list"

text \<open>The phases of \<open>v1.PersistentVolumePhase\<close>, a string type, that the code names.\<close>

definition VolumeBound :: string where
  "VolumeBound = ''Bound''"

definition VolumeAvailable :: string where
  "VolumeAvailable = ''Available''"

definition VolumeReleased :: string where
  "VolumeReleased = ''Released''"

text \<open>
  Indexing a Go map with one result, \<open>m[key]\<close>: the zero value, the empty string, when
  the key is absent. The two-result form \<open>v, found := m[key]\<close> is the map itself.
\<close>

definition index :: "(string \<rightharpoonup> string) \<Rightarrow> string \<Rightarrow> string" where
  "index m key = (case m key of None \<Rightarrow> '''' | Some v \<Rightarrow> v)"

text \<open>The levels of the log calls that the functions below make.\<close>

datatype level = Debugf | Infof | Warnf | Errorf

section \<open>Validity predicates\<close>

definition isValidvSphereVolumeClaim :: "plugin_consts \<Rightarrow> ObjectMeta \<Rightarrow> bool" where
  "isValidvSphereVolumeClaim k pvcMetadata =
     (case Annotations pvcMetadata (AnnMigratedTo k) of
        Some annotation \<Rightarrow>
          if annotation = Name k \<and>
             index (Annotations pvcMetadata) (AnnStorageProvisioner k) = InTreePluginName k
          then True else False
      | None \<Rightarrow>
          if index (Annotations pvcMetadata) (AnnStorageProvisioner k) = Name k
          then True else False)"

definition isValidvSphereVolume :: "plugin_consts \<Rightarrow> ObjectMeta \<Rightarrow> bool" where
  "isValidvSphereVolume k pvMetadata =
     (case Annotations pvMetadata (AnnMigratedTo k) of
        Some annotation \<Rightarrow>
          if annotation = Name k \<and>
             index (Annotations pvMetadata) (AnnDynamicallyProvisioned k) = InTreePluginName k
          then True else False
      | None \<Rightarrow>
          if index (Annotations pvMetadata) (AnnDynamicallyProvisioned k) = Name k
          then True else False)"

text \<open>\<open>pv.Spec.CSI != nil && pv.Spec.CSI.Driver == csitypes.Name\<close>\<close>

definition has_plugin_driver :: "plugin_consts \<Rightarrow> PersistentVolume \<Rightarrow> bool" where
  "has_plugin_driver k pv =
     (case pv_Spec_CSI pv of None \<Rightarrow> False | Some csi \<Rightarrow> Driver csi = Name k)"

definition scNameAnnotationKey :: string where
  "scNameAnnotationKey = ''volume.beta.kubernetes.io/storage-class''"

definition GetSCNameFromPVC :: "PersistentVolumeClaim \<Rightarrow> error + string" where
  "GetSCNameFromPVC pvc =
     (let fromAnnotation =
            (let scNameFromAnnotation = index (Annotations (pvc_ObjectMeta pvc)) scNameAnnotationKey
             in if scNameFromAnnotation = ''''
                then Inl (Error ''storage class name not specified in PVC'')
                else Inr scNameFromAnnotation)
      in case pvc_Spec_StorageClassName pvc of
           None \<Rightarrow> fromAnnotation
         | Some scName \<Rightarrow> if scName = '''' then fromAnnotation else Inr scName)"

section \<open>Candidate discovery\<close>

text \<open>
  \<open>pvLister.List\<close> and \<open>podLister.List\<close> read the informer cache: their answer, an
  error or the list of objects, is an argument of the functions below. So is the state
  of the migration feature switch that \<open>IsFSSEnabled(ctx, common.CSIMigration)\<close> reports
  during the call.
\<close>

text \<open>The loop of lines 36 to 44; \<open>acc\<close> is \<open>pvsInDesiredState\<close>.\<close>

fun desired_state_loop ::
  "plugin_consts \<Rightarrow> bool \<Rightarrow> PersistentVolume list \<Rightarrow> PersistentVolume list \<Rightarrow> PersistentVolume list"
where
  "desired_state_loop k fss [] acc = acc"
| "desired_state_loop k fss (pv # allPVs) acc =
     (if has_plugin_driver k pv \<or>
         (fss \<and> pv_Spec_VsphereVolume pv \<noteq> None \<and> isValidvSphereVolume k (pv_ObjectMeta pv))
      then (if pv_Status_Phase pv = VolumeBound \<or> pv_Status_Phase pv = VolumeAvailable \<or>
               pv_Status_Phase pv = VolumeReleased
            then desired_state_loop k fss allPVs (acc @ [pv])
            else desired_state_loop k fss allPVs acc)
      else desired_state_loop k fss allPVs acc)"

definition getPVsInBoundAvailableOrReleased ::
  "plugin_consts \<Rightarrow> bool \<Rightarrow> error + PersistentVolume list \<Rightarrow> PersistentVolume list \<times> error option"
where
  "getPVsInBoundAvailableOrReleased k fss pvLister_List =
     (case pvLister_List of
        Inl err \<Rightarrow> ([], Some err)
      | Inr allPVs \<Rightarrow> (desired_state_loop k fss allPVs [], None))"

text \<open>The loop of lines 57 to 64; \<open>acc\<close> is \<open>boundPVs\<close>.\<close>

fun bound_loop ::
  "plugin_consts \<Rightarrow> PersistentVolume list \<Rightarrow> PersistentVolume list \<Rightarrow> PersistentVolume list"
where
  "bound_loop k [] acc = acc"
| "bound_loop k (pv # allPVs) acc =
     (if has_plugin_driver k pv
      then (if pv_Status_Phase pv = VolumeBound
            then bound_loop k allPVs (acc @ [pv])
            else bound_loop k allPVs acc)
      else bound_loop k allPVs acc)"

definition getBoundPVs ::
  "plugin_consts \<Rightarrow> error + PersistentVolume list \<Rightarrow> PersistentVolume list \<times> error option"
where
  "getBoundPVs k pvLister_List =
     (case pvLister_List of
        Inl err \<Rightarrow> ([], Some err)
      | Inr allPVs \<Rightarrow> (bound_loop k allPVs [], None))"

text \<open>
  \<open>volumeMigrationService.GetVolumeID\<close> is a call to the migration service, which may
  register the volume on the way. It is modelled as a transition on a service state
  \<open>'m\<close> that answers with an error or with the volume ID.
\<close>

record VolumeSpec =
  spec_VolumePath :: string
  spec_StoragePolicyName :: string

type_synonym 'm migration_service = "'m \<Rightarrow> VolumeSpec \<Rightarrow> (error + string) \<times> 'm"

text \<open>
  The state of the two nested loops of lines 78 to 90: the map \<open>inlineVolumes\<close>, the
  state of the migration service, the \<open>GetVolumeID\<close> calls made so far with their
  answers, and the levels of the log calls made so far.
\<close>

record 'm inline_state =
  inlineVolumes :: "string \<rightharpoonup> string"
  service :: 'm
  lookups :: "(VolumeSpec \<times> (error + string)) list"
  logged :: "level list"

fun inline_volumes_loop ::
  "'m migration_service \<Rightarrow> bool \<Rightarrow> Volume list \<Rightarrow> 'm inline_state \<Rightarrow> 'm inline_state"
where
  "inline_volumes_loop getVolumeID migrationFeatureState [] st = st"
| "inline_volumes_loop getVolumeID migrationFeatureState (volume # volumes) st =
     (case vol_VsphereVolume volume of
        None \<Rightarrow> inline_volumes_loop getVolumeID migrationFeatureState volumes st
      | Some vsphereVolume \<Rightarrow>
          if migrationFeatureState then
            (let spec = \<lparr> spec_VolumePath = VolumePath vsphereVolume,
                          spec_StoragePolicyName = StoragePolicyName vsphereVolume \<rparr>
             in case getVolumeID (service st) spec of
                  (Inl err, m') \<Rightarrow>
                    inline_volumes_loop getVolumeID migrationFeatureState volumes
                      (st\<lparr> service := m',
                          lookups := lookups st @ [(spec, Inl err)],
                          logged := logged st @ [Warnf] \<rparr>)
                | (Inr volumeHandle, m') \<Rightarrow>
                    inline_volumes_loop getVolumeID migrationFeatureState volumes
                      (st\<lparr> inlineVolumes := (inlineVolumes st)(volumeHandle \<mapsto> VolumePath vsphereVolume),
                          service := m',
                          lookups := lookups st @ [(spec, Inr volumeHandle)] \<rparr>))
          else inline_volumes_loop getVolumeID migrationFeatureState volumes st)"

fun inline_pods_loop ::
  "'m migration_service \<Rightarrow> bool \<Rightarrow> Pod list \<Rightarrow> 'm inline_state \<Rightarrow> 'm inline_state"
where
  "inline_pods_loop getVolumeID migrationFeatureState [] st = st"
| "inline_pods_loop getVolumeID migrationFeatureState (pod # allPods) st =
     inline_pods_loop getVolumeID migrationFeatureState allPods
       (inline_volumes_loop getVolumeID migrationFeatureState (pod_Spec_Volumes pod) st)"

text \<open>
  The function returns the map (\<open>None\<close> for the nil map) and the error; the model
  returns with them the final loop state, whose map is the returned one.
\<close>

definition fullSyncGetInlineMigratedVolumesInfo ::
  "'m migration_service \<Rightarrow> 'm \<Rightarrow> error + Pod list \<Rightarrow> bool
     \<Rightarrow> ((string \<rightharpoonup> string) option \<times> error option) \<times> 'm inline_state"
where
  "fullSyncGetInlineMigratedVolumesInfo getVolumeID m podLister_List migrationFeatureState =
     (let st0 = \<lparr> inlineVolumes = Map.empty, service = m, lookups = [], logged = [] \<rparr>
      in case podLister_List of
           Inl err \<Rightarrow> ((None, Some err), st0\<lparr> logged := [Errorf] \<rparr>)
         | Inr allPods \<Rightarrow>
             (let st = inline_pods_loop getVolumeID migrationFeatureState allPods st0
              in ((Some (inlineVolumes st), None), st)))"

section \<open>Validity of a pod's volume: \<open>IsValidVolume\<close>\<close>

text \<open>
  \<open>pvcLister.PersistentVolumeClaims(namespace).Get(name)\<close> and \<open>pvLister.Get(name)\<close>
  are lookups in the informer cache, given as functions. The function reads
  \<open>volume.PersistentVolumeClaim.ClaimName\<close> first: on a volume without a claim source
  this dereferences nil and panics, which is the value \<open>None\<close>. Otherwise the result is
  the returned triple and the levels of the log calls made. The pod is a pod object,
  not a nil pointer.
\<close>

definition IsValidVolume ::
  "plugin_consts \<Rightarrow> bool \<Rightarrow> (string \<Rightarrow> string \<Rightarrow> error + PersistentVolumeClaim)
     \<Rightarrow> (string \<Rightarrow> error + PersistentVolume) \<Rightarrow> Volume \<Rightarrow> Pod
     \<Rightarrow> ((bool \<times> PersistentVolume option \<times> PersistentVolumeClaim option) \<times> level list) option"
where
  "IsValidVolume k fss pvcLister_Get pvLister_Get volume pod =
     (case vol_PersistentVolumeClaim volume of
        None \<Rightarrow> None
      | Some pvcName \<Rightarrow>
          (case pvcLister_Get (Namespace (pod_ObjectMeta pod)) pvcName of
             Inl err \<Rightarrow> Some ((False, None, None), [Errorf])
           | Inr pvc \<Rightarrow>
               (case pvLister_Get (pvc_Spec_VolumeName pvc) of
                  Inl err \<Rightarrow> Some ((False, None, None), [Errorf])
                | Inr pv \<Rightarrow>
                    if (case pv_Spec_CSI pv of None \<Rightarrow> True | Some csi \<Rightarrow> Driver csi \<noteq> Name k) \<and>
                       (fss \<and> pv_Spec_VsphereVolume pv = None)
                    then Some ((False, None, None), [Debugf])
                    else if \<not> fss \<and> pv_Spec_VsphereVolume pv \<noteq> None
                    then Some ((False, None, None), [Warnf])
                    else Some ((True, Some pv, Some pvc), []))))"

section \<open>The properties, in the words of the specification\<close>

text \<open>
  The driver-ownership filter of volume discovery: the volume has a CSI source whose
  driver is this plugin's name, or the migration feature is enabled and the volume has
  a legacy vSphere source with valid migration annotations.
\<close>

definition owned_or_migrated :: "plugin_consts \<Rightarrow> bool \<Rightarrow> PersistentVolume \<Rightarrow> bool" where
  "owned_or_migrated k fss pv \<longleftrightarrow>
     map_option Driver (pv_Spec_CSI pv) = Some (Name k) \<or>
     (fss \<and> pv_Spec_VsphereVolume pv \<noteq> None \<and> isValidvSphereVolume k (pv_ObjectMeta pv))"

definition bound_available_or_released :: "PersistentVolume \<Rightarrow> bool" where
  "bound_available_or_released pv \<longleftrightarrow>
     pv_Status_Phase pv \<in> {VolumeBound, VolumeAvailable, VolumeReleased}"

text \<open>
  The inline legacy references of a list of pods, in the order the pods and their
  volumes are listed, each as the \<open>VolumeSpec\<close> handed to the migration service.
\<close>

definition volume_refs :: "Volume list \<Rightarrow> VolumeSpec list" where
  "volume_refs volumes =
     map (\<lambda>vs. \<lparr> spec_VolumePath = VolumePath vs, spec_StoragePolicyName = StoragePolicyName vs \<rparr>)
         (List.map_filter vol_VsphereVolume volumes)"

definition inline_refs :: "Pod list \<Rightarrow> VolumeSpec list" where
  "inline_refs pods = concat (map (\<lambda>pod. volume_refs (pod_Spec_Volumes pod)) pods)"

text \<open>
  Asking the migration service for each reference of a list in turn: the answers, paired
  with the references, and the state the service is left in.
\<close>

fun serve ::
  "'m migration_service \<Rightarrow> 'm \<Rightarrow> VolumeSpec list \<Rightarrow> (VolumeSpec \<times> (error + string)) list \<times> 'm"
where
  "serve getVolumeID m [] = ([], m)"
| "serve getVolumeID m (spec # specs) =
     (case getVolumeID m spec of
        (answer, m') \<Rightarrow>
          (case serve getVolumeID m' specs of
             (answers, m'') \<Rightarrow> ((spec, answer) # answers, m'')))"

text \<open>
  The successful answers as pairs of volume ID and legacy path, and the number of
  failed ones.
\<close>

fun resolved :: "(VolumeSpec \<times> (error + string)) list \<Rightarrow> (string \<times> string) list" where
  "resolved [] = []"
| "resolved ((spec, Inr volumeHandle) # answers) =
     (volumeHandle, spec_VolumePath spec) # resolved answers"
| "resolved ((spec, Inl err) # answers) = resolved answers"

fun failures :: "(VolumeSpec \<times> (error + string)) list \<Rightarrow> nat" where
  "failures [] = 0"
| "failures ((spec, Inr volumeHandle) # answers) = failures answers"
| "failures ((spec, Inl err) # answers) = Suc (failures answers)"

text \<open>
  A loop state after a run of \<open>GetVolumeID\<close> calls with the given answers and final
  service state: successes entered in the map in call order, one warning per failure.
\<close>

definition after_answers ::
  "'m inline_state \<Rightarrow> (VolumeSpec \<times> (error + string)) list \<times> 'm \<Rightarrow> 'm inline_state" where
  "after_answers st served =
     st\<lparr> inlineVolumes := inlineVolumes st ++ map_of (rev (resolved (fst served))),
         service := snd served,
         lookups := lookups st @ fst served,
         logged := logged st @ replicate (failures (fst served)) Warnf \<rparr>"

section \<open>Sample cluster objects\<close>

definition vmdk :: "string \<Rightarrow> VsphereVirtualDiskVolumeSource" where
  "vmdk path = \<lparr> VolumePath = path, StoragePolicyName = '''' \<rparr>"

text \<open>A bound legacy vSphere volume that carries both migration annotations.\<close>

definition migrated_pv :: PersistentVolume where
  "migrated_pv =
     \<lparr> pv_ObjectMeta =
         \<lparr> ObjName = ''pv-migrated'', Namespace = '''',
           Annotations = [''pv.kubernetes.io/migrated-to'' \<mapsto> ''csi.vsphere.vmware.com'',
                          ''pv.kubernetes.io/provisioned-by'' \<mapsto> ''kubernetes.io/vsphere-volume''] \<rparr>,
       pv_Spec_CSI = None,
       pv_Spec_VsphereVolume = Some (vmdk ''[ds1] kubevols/migrated.vmdk''),
       pv_Status_Phase = ''Bound'' \<rparr>"

text \<open>A bound legacy vSphere volume with no annotation at all.\<close>

definition legacy_pv :: PersistentVolume where
  "legacy_pv =
     \<lparr> pv_ObjectMeta = \<lparr> ObjName = ''pv-legacy'', Namespace = '''', Annotations = Map.empty \<rparr>,
       pv_Spec_CSI = None,
       pv_Spec_VsphereVolume = Some (vmdk ''[ds1] kubevols/legacy.vmdk''),
       pv_Status_Phase = ''Bound'' \<rparr>"

text \<open>Volumes of this plugin, in three phases, and a bound volume of another driver.\<close>

definition csi_pv :: "string \<Rightarrow> string \<Rightarrow> string \<Rightarrow> PersistentVolume" where
  "csi_pv name driver phase =
     \<lparr> pv_ObjectMeta = \<lparr> ObjName = name, Namespace = '''', Annotations = Map.empty \<rparr>,
       pv_Spec_CSI = Some \<lparr> Driver = driver, VolumeHandle = name \<rparr>,
       pv_Spec_VsphereVolume = None,
       pv_Status_Phase = phase \<rparr>"

definition sample_pvs :: "PersistentVolume list" where
  "sample_pvs =
     [csi_pv ''pv-1'' ''csi.vsphere.vmware.com'' ''Bound'',
      csi_pv ''pv-2'' ''csi.vsphere.vmware.com'' ''Pending'',
      migrated_pv,
      csi_pv ''pv-3'' ''ebs.csi.aws.com'' ''Bound'',
      legacy_pv,
      csi_pv ''pv-4'' ''csi.vsphere.vmware.com'' ''Released'']"

text \<open>A claim bound to a volume, a pod volume that mounts the claim, and the pod.\<close>

definition claim_for :: "string \<Rightarrow> PersistentVolumeClaim" where
  "claim_for volumeName =
     \<lparr> pvc_ObjectMeta = \<lparr> ObjName = ''claim-1'', Namespace = ''default'', Annotations = Map.empty \<rparr>,
       pvc_Spec_VolumeName = volumeName,
       pvc_Spec_StorageClassName = None \<rparr>"

definition claim_volume :: Volume where
  "claim_volume =
     \<lparr> vol_Name = ''data'', vol_PersistentVolumeClaim = Some ''claim-1'', vol_VsphereVolume = None \<rparr>"

definition inline_volume :: "string \<Rightarrow> Volume" where
  "inline_volume path =
     \<lparr> vol_Name = ''inline'', vol_PersistentVolumeClaim = None, vol_VsphereVolume = Some (vmdk path) \<rparr>"

definition pod_with :: "string \<Rightarrow> Volume list \<Rightarrow> Pod" where
  "pod_with name volumes =
     \<lparr> pod_ObjectMeta = \<lparr> ObjName = name, Namespace = ''default'', Annotations = Map.empty \<rparr>,
       pod_Spec_Volumes = volumes \<rparr>"

text \<open>Informer caches that hold one claim and one volume.\<close>

definition pvc_cache :: "PersistentVolumeClaim \<Rightarrow> string \<Rightarrow> string \<Rightarrow> error + PersistentVolumeClaim" where
  "pvc_cache pvc namespace name =
     (if namespace = Namespace (pvc_ObjectMeta pvc) \<and> name = ObjName (pvc_ObjectMeta pvc)
      then Inr pvc else Inl (Error ''not found''))"

definition pv_cache :: "PersistentVolume \<Rightarrow> string \<Rightarrow> error + PersistentVolume" where
  "pv_cache pv name =
     (if name = ObjName (pv_ObjectMeta pv) then Inr pv else Inl (Error ''not found''))"

text \<open>
  A migration service that counts its calls, knows two disks and fails on every other
  path.
\<close>

definition counting_service :: "nat migration_service" where
  "counting_service n spec =
     (if spec_VolumePath spec = ''[ds1] kubevols/a.vmdk'' then Inr ''vol-a''
      else if spec_VolumePath spec = ''[ds1] kubevols/c.vmdk'' then Inr ''vol-c''
      else Inl (Error ''volume not registered''),
      Suc n)"

definition sample_pods :: "Pod list" where
  "sample_pods =
     [pod_with ''pod-1''
        [inline_volume ''[ds1] kubevols/a.vmdk'', claim_volume, inline_volume ''[ds1] kubevols/b.vmdk''],
      pod_with ''pod-2'' [inline_volume ''[ds1] kubevols/c.vmdk'']]"

text \<open>
  A migration service that resolves every path to the same volume ID, and two pods
  that each mount a different inline disk.
\<close>

definition aliasing_service :: "nat migration_service" where
  "aliasing_service n spec = (Inr ''vol-same'', Suc n)"

definition aliased_pods :: "Pod list" where
  "aliased_pods =
     [pod_with ''pod-1'' [inline_volume ''[ds1] kubevols/x.vmdk''],
      pod_with ''pod-2'' [inline_volume ''[ds1] kubevols/z.vmdk'']]"

section \<open>The pagination loop, call by call\<close>

lemma call_at_0: "call_at qv s flt 0 = (s, flt)"
  by (simp add: call_at_def)

lemma call_at_Suc: "call_at qv s flt (Suc n) = next_call qv (call_at qv s flt n)"
  by (simp add: call_at_def)

lemma call_at_Suc_shift:
  "call_at qv s flt (Suc n) = (case next_call qv (s, flt) of (s', flt') \<Rightarrow> call_at qv s' flt' n)"
  by (simp add: call_at_def funpow_swap1 split: prod.splits)

lemma pages_of_append: "pages_of (xs @ ys) = pages_of xs @ pages_of ys"
  by (induction xs rule: pages_of.induct) simp_all

lemma pages_upto_Suc:
  "pages_upto qv s flt (Suc n) = pages_upto qv s flt n @ pages_of [response_at qv s flt n]"
  by (simp add: pages_upto_def pages_of_append)

lemma filters_upto_Suc:
  "filters_upto qv s flt (Suc n) = filters_upto qv s flt n @ [snd (call_at qv s flt n)]"
  by (simp add: filters_upto_def)

lemma not_stops_page:
  assumes "\<not> stops resp"
  obtains r where "resp = Inr (Some r)"
    and "Offset (ResultCursor r) \<noteq> TotalRecords (ResultCursor r)"
  using assms by (cases resp rule: stops.cases) auto

lemma query_loop_continue:
  assumes "qv s flt = (Inr (Some r), s')"
    and "Offset (ResultCursor r) \<noteq> TotalRecords (ResultCursor r)"
  shows "query_loop qv s flt acc calls =
       query_loop qv s' (flt\<lparr>Cursor := ResultCursor r\<rparr>) (acc @ [r]) (calls @ [flt])"
  using assms by (subst query_loop.simps) simp

lemma query_loop_error:
  assumes "qv s flt = (Inl err, s')"
  shows "query_loop qv s flt acc calls = Some (([], Some err), s', calls @ [flt])"
  using assms by (subst query_loop.simps) simp

lemma query_loop_nil:
  assumes "qv s flt = (Inr None, s')"
  shows "query_loop qv s flt acc calls = Some ((acc, None), s', calls @ [flt])"
  using assms by (subst query_loop.simps) simp

lemma query_loop_last:
  assumes "qv s flt = (Inr (Some r), s')"
    and "Offset (ResultCursor r) = TotalRecords (ResultCursor r)"
  shows "query_loop qv s flt acc calls = Some ((acc @ [r], None), s', calls @ [flt])"
  using assms by (subst query_loop.simps) simp

lemma query_loop_steps:
  assumes "\<forall>i<n. \<not> stops (response_at qv s flt i)"
  shows "query_loop qv s flt acc calls =
         query_loop qv (fst (call_at qv s flt n)) (snd (call_at qv s flt n))
           (acc @ pages_upto qv s flt n) (calls @ filters_upto qv s flt n)"
  using assms
proof (induction n)
  case 0
  show ?case by (simp add: call_at_0 pages_upto_def filters_upto_def)
next
  case (Suc n)
  obtain sn fn where c: "call_at qv s flt n = (sn, fn)" by (cases "call_at qv s flt n")
  obtain resp s' where q: "qv sn fn = (resp, s')" by (cases "qv sn fn")
  from Suc.prems have "\<not> stops resp"
    using c q by (auto simp: response_at_def)
  then obtain r where r: "resp = Inr (Some r)"
    and ne: "Offset (ResultCursor r) \<noteq> TotalRecords (ResultCursor r)"
    by (rule not_stops_page)
  have nx: "call_at qv s flt (Suc n) = (s', fn\<lparr>Cursor := ResultCursor r\<rparr>)"
    using c q r by (simp add: call_at_Suc)
  have ra: "response_at qv s flt n = Inr (Some r)"
    using c q r by (simp add: response_at_def)
  have "query_loop qv s flt acc calls =
        query_loop qv sn fn (acc @ pages_upto qv s flt n) (calls @ filters_upto qv s flt n)"
    using Suc by (simp add: c)
  also have "\<dots> = query_loop qv s' (fn\<lparr>Cursor := ResultCursor r\<rparr>)
        ((acc @ pages_upto qv s flt n) @ [r]) ((calls @ filters_upto qv s flt n) @ [fn])"
    using q r ne by (intro query_loop_continue) simp_all
  finally show ?case
    by (simp add: nx ra c pages_upto_Suc filters_upto_Suc)
qed

text \<open>
  The value of a run whose first stopping response is the one of call number \<open>n\<close>.
\<close>

lemma query_loop_stops_at:
  assumes "\<forall>i<n. \<not> stops (response_at qv s flt i)" and "stops (response_at qv s flt n)"
  shows "query_loop qv s flt acc calls =
     Some ((case response_at qv s flt n of
              Inl err \<Rightarrow> ([], Some err)
            | Inr None \<Rightarrow> (acc @ pages_upto qv s flt n, None)
            | Inr (Some r) \<Rightarrow> (acc @ pages_upto qv s flt (Suc n), None)),
           state_after qv s flt n, calls @ filters_upto qv s flt (Suc n))"
proof -
  obtain sn fn where c: "call_at qv s flt n = (sn, fn)" by (cases "call_at qv s flt n")
  obtain resp s' where q: "qv sn fn = (resp, s')" by (cases "qv sn fn")
  have ra: "response_at qv s flt n = resp" and sa: "state_after qv s flt n = s'"
    using c q by (simp_all add: response_at_def state_after_def)
  have run: "query_loop qv s flt acc calls =
        query_loop qv sn fn (acc @ pages_upto qv s flt n) (calls @ filters_upto qv s flt n)"
    using query_loop_steps [OF assms(1)] by (simp add: c)
  show ?thesis
  proof (cases resp)
    case (Inl err)
    then show ?thesis
      using q run ra sa c by (simp add: query_loop_error filters_upto_Suc)
  next
    case (Inr opt)
    show ?thesis
    proof (cases opt)
      case None
      then show ?thesis
        using Inr q run ra sa c by (simp add: query_loop_nil filters_upto_Suc)
    next
      case (Some r)
      with Inr assms(2) ra have "Offset (ResultCursor r) = TotalRecords (ResultCursor r)"
        by simp
      then show ?thesis
        using Some Inr q run ra sa c
        by (simp add: query_loop_last filters_upto_Suc pages_upto_Suc)
    qed
  qed
qed

text \<open>A run that returns has met a stopping response.\<close>

lemma query_loop_Some_stops:
  assumes "query_loop qv s flt acc calls = Some out"
  shows "\<exists>n. stops (response_at qv s flt n)"
  using assms
proof (induction rule: query_loop.raw_induct [rotated 1, consumes 1])
  case (1 loop qv s flt acc calls out)
  note ih = 1(1) and body = 1(2)
  obtain resp s' where q: "qv s flt = (resp, s')" by (cases "qv s flt")
  show ?case
  proof (cases "stops resp")
    case True
    then have "stops (response_at qv s flt 0)"
      using q by (simp add: response_at_def call_at_0)
    then show ?thesis ..
  next
    case False
    then obtain r where r: "resp = Inr (Some r)"
      and ne: "Offset (ResultCursor r) \<noteq> TotalRecords (ResultCursor r)"
      by (rule not_stops_page)
    with body q have "loop qv s' (flt\<lparr>Cursor := ResultCursor r\<rparr>)
                (acc @ [r]) (calls @ [flt]) = Some out"
      by simp
    from ih [OF this] obtain n where
      "stops (response_at qv s' (flt\<lparr>Cursor := ResultCursor r\<rparr>) n)" ..
    then have "stops (response_at qv s flt (Suc n))"
      using q r by (simp add: response_at_def call_at_Suc_shift)
    then show ?thesis ..
  qed
qed


lemma length_pages_upto:
  assumes "\<forall>i<n. \<not> stops (response_at qv s flt i)"
  shows "length (pages_upto qv s flt n) = n"
  using assms
proof (induction n)
  case 0
  show ?case by (simp add: pages_upto_def)
next
  case (Suc n)
  then have "\<not> stops (response_at qv s flt n)" by simp
  then obtain r where "response_at qv s flt n = Inr (Some r)"
    by (rule not_stops_page)
  with Suc show ?case by (simp add: pages_upto_Suc)
qed

lemma length_filters_upto: "length (filters_upto qv s flt n) = n"
  by (simp add: filters_upto_def)

section \<open>Results on \<open>fullSyncGetQueryResults\<close>\<close>

text \<open>
  C1. Take any backend that answers the first call, made with the initial filter, with
  a page of two records and cursor (offset 2, limit 2, total 5), the call with that
  cursor with a page of two records and offset 4, and the call with that cursor with a
  page of one record and offset 5. Then \<open>fullSyncGetQueryResults\<close> starts at offset 0,
  makes exactly three calls and returns the three pages in call order, five records in
  all, with a nil error; the last cursor has offset 5 = total 5. In general, from any
  loop state, a page whose cursor has offset equal to total is appended and ends the
  loop at once.
\<close>

theorem fullSyncGetQueryResults_three_pages:
  fixes qv :: "('s, 'v) manager"
  assumes "qv s0 (initial_filter k volumeIds clusterID) = (Inr (Some p1), s1)"
    and "qv s1 ((initial_filter k volumeIds clusterID)\<lparr>Cursor := ResultCursor p1\<rparr>) = (Inr (Some p2), s2)"
    and "qv s2 ((initial_filter k volumeIds clusterID)\<lparr>Cursor := ResultCursor p2\<rparr>) = (Inr (Some p3), s3)"
    and "length (Volumes p1) = 2" and "length (Volumes p2) = 2" and "length (Volumes p3) = 1"
    and "ResultCursor p1 = \<lparr>Offset = 2, Limit = 2, TotalRecords = 5\<rparr>"
    and "ResultCursor p2 = \<lparr>Offset = 4, Limit = 2, TotalRecords = 5\<rparr>"
    and "ResultCursor p3 = \<lparr>Offset = 5, Limit = 2, TotalRecords = 5\<rparr>"
  shows "(\<exists>calls.
           fullSyncGetQueryResults k volumeIds clusterID qv s0 = Some (([p1, p2, p3], None), s3, calls) \<and>
           length calls = 3 \<and>
           Offset (Cursor (hd calls)) = 0 \<and>
           length (concat (map Volumes [p1, p2, p3])) = 5 \<and>
           Offset (ResultCursor p3) = TotalRecords (ResultCursor p3)) \<and>
         (\<forall>(qv' :: ('s, 'v) manager) s flt acc calls r s'.
           qv' s flt = (Inr (Some r), s') \<and>
           Offset (ResultCursor r) = TotalRecords (ResultCursor r) \<longrightarrow>
           query_loop qv' s flt acc calls = Some ((acc @ [r], None), s', calls @ [flt]))"
proof (intro conjI allI impI)
  let ?f0 = "initial_filter k volumeIds clusterID"
  let ?f1 = "?f0\<lparr>Cursor := ResultCursor p1\<rparr>"
  let ?f2 = "?f0\<lparr>Cursor := ResultCursor p2\<rparr>"
  have "query_loop qv s0 ?f0 [] [] = query_loop qv s1 ?f1 [p1] [?f0]"
    using assms(1,7) query_loop_continue [of qv s0 ?f0 p1 s1 "[]" "[]"] by simp
  also have "\<dots> = query_loop qv s2 ?f2 [p1, p2] [?f0, ?f1]"
    using assms(2,8) query_loop_continue [of qv s1 ?f1 p2 s2 "[p1]" "[?f0]"] by simp
  also have "\<dots> = Some (([p1, p2, p3], None), s3, [?f0, ?f1, ?f2])"
    using assms(3,9) query_loop_last [of qv s2 ?f2 p3 s3 "[p1, p2]" "[?f0, ?f1]"] by simp
  finally have "fullSyncGetQueryResults k volumeIds clusterID qv s0 =
      Some (([p1, p2, p3], None), s3, [?f0, ?f1, ?f2])"
    by (simp add: fullSyncGetQueryResults_def)
  moreover have "Offset (Cursor ?f0) = 0"
    by (simp add: initial_filter_def)
  ultimately show "\<exists>calls.
           fullSyncGetQueryResults k volumeIds clusterID qv s0 = Some (([p1, p2, p3], None), s3, calls) \<and>
           length calls = 3 \<and>
           Offset (Cursor (hd calls)) = 0 \<and>
           length (concat (map Volumes [p1, p2, p3])) = 5 \<and>
           Offset (ResultCursor p3) = TotalRecords (ResultCursor p3)"
    using assms(4-6,9) by simp
next
  fix qv' :: "('s, 'v) manager" and s flt acc calls r s'
  assume "qv' s flt = (Inr (Some r), s') \<and>
    Offset (ResultCursor r) = TotalRecords (ResultCursor r)"
  then show "query_loop qv' s flt acc calls = Some ((acc @ [r], None), s', calls @ [flt])"
    by (simp add: query_loop_last)
qed

theorem fullSyncGetQueryResults_three_pages_witness:
  "(\<exists>calls.
      fullSyncGetQueryResults sample_consts [] ''cluster-1'' scripted
          [Inr (Some page1), Inr (Some page2), Inr (Some page3)]
        = Some (([page1, page2, page3], None), [], calls) \<and>
      length calls = 3 \<and>
      Offset (Cursor (hd calls)) = 0 \<and>
      length (concat (map Volumes [page1, page2, page3])) = 5 \<and>
      Offset (ResultCursor page3) = TotalRecords (ResultCursor page3)) \<and>
   query_loop scripted [Inr (Some page3)] (initial_filter sample_consts [] []) [page1] []
     = Some (([page1, page3], None), [], [initial_filter sample_consts [] []])"
proof -
  have gen: "\<And>(qv' :: (string response list, string) manager) s flt acc calls r s'.
           qv' s flt = (Inr (Some r), s') \<and>
           Offset (ResultCursor r) = TotalRecords (ResultCursor r) \<longrightarrow>
           query_loop qv' s flt acc calls = Some ((acc @ [r], None), s', calls @ [flt])"
    and run: "\<exists>calls.
      fullSyncGetQueryResults sample_consts [] ''cluster-1'' scripted
          [Inr (Some page1), Inr (Some page2), Inr (Some page3)]
        = Some (([page1, page2, page3], None), [], calls) \<and>
      length calls = 3 \<and>
      Offset (Cursor (hd calls)) = 0 \<and>
      length (concat (map Volumes [page1, page2, page3])) = 5 \<and>
      Offset (ResultCursor page3) = TotalRecords (ResultCursor page3)"
    using fullSyncGetQueryResults_three_pages
      [of scripted "[Inr (Some page1), Inr (Some page2), Inr (Some page3)]"
          sample_consts "[]" "''cluster-1''" page1 "[Inr (Some page2), Inr (Some page3)]"
          page2 "[Inr (Some page3)]" page3 "[]"]
    by (simp_all add: page1_def page2_def page3_def page_def)
  from gen [of scripted "[Inr (Some page3)]" "initial_filter sample_consts [] []" page3 "[]"
               "[page1]" "[]"]
  have "query_loop scripted [Inr (Some page3)] (initial_filter sample_consts [] []) [page1] []
     = Some (([page1, page3], None), [], [initial_filter sample_consts [] []])"
    by (simp add: page3_def page_def)
  with run show ?thesis by blast
qed

text \<open>
  C2. If the first \<open>n\<close> calls return pages that do not end the loop and call number
  \<open>n\<close> returns an error, then \<open>fullSyncGetQueryResults\<close> returns that error with a nil
  slice after \<open>n + 1\<close> calls: the \<open>n\<close> pages fetched before are not returned.
\<close>

theorem fullSyncGetQueryResults_page_error:
  fixes qv :: "('s, 'v) manager"
  assumes "\<forall>i<n. \<not> stops (response_at qv s (initial_filter k volumeIds clusterID) i)"
    and "response_at qv s (initial_filter k volumeIds clusterID) n = Inl err"
  shows "\<exists>calls.
           fullSyncGetQueryResults k volumeIds clusterID qv s =
             Some (([], Some err), state_after qv s (initial_filter k volumeIds clusterID) n, calls) \<and>
           length calls = Suc n \<and>
           length (pages_upto qv s (initial_filter k volumeIds clusterID) n) = n"
proof -
  let ?f0 = "initial_filter k volumeIds clusterID"
  from assms(2) have "stops (response_at qv s ?f0 n)" by simp
  from query_loop_stops_at [OF assms(1) this, of "[]" "[]"] assms(2)
  have "fullSyncGetQueryResults k volumeIds clusterID qv s =
          Some (([], Some err), state_after qv s ?f0 n, filters_upto qv s ?f0 (Suc n))"
    by (simp add: fullSyncGetQueryResults_def)
  then show ?thesis
    using length_pages_upto [OF assms(1)] length_filters_upto [of qv s ?f0 "Suc n"] by simp
qed

theorem fullSyncGetQueryResults_page_error_witness:
  "\<exists>calls.
     fullSyncGetQueryResults sample_consts [] ''cluster-1'' scripted
         [Inr (Some page1), Inl (Error ''backend unavailable''), Inr (Some page3)]
       = Some (([], Some (Error ''backend unavailable'')), [Inr (Some page3)], calls) \<and>
     length calls = 2"
proof -
  let ?f0 = "initial_filter sample_consts [] ''cluster-1''"
  let ?script = "[Inr (Some page1), Inl (Error ''backend unavailable''), Inr (Some page3)]"
  have c1: "call_at scripted ?script ?f0 (Suc 0) =
      ([Inl (Error ''backend unavailable''), Inr (Some page3)], ?f0\<lparr>Cursor := ResultCursor page1\<rparr>)"
    by (simp add: call_at_def)
  have h1: "\<forall>i<Suc 0. \<not> stops (response_at scripted ?script ?f0 i)"
    by (simp add: response_at_def call_at_def page1_def page_def)
  have h2: "response_at scripted ?script ?f0 (Suc 0) = Inl (Error ''backend unavailable'')"
    by (simp add: response_at_def c1)
  have "state_after scripted ?script ?f0 (Suc 0) = [Inr (Some page3)]"
    by (simp add: state_after_def c1)
  with fullSyncGetQueryResults_page_error [OF h1 h2] show ?thesis
    by (auto simp: numeral_2_eq_2)
qed

text \<open>
  C3, amended. If the first \<open>n\<close> calls return pages that do not end the loop and call
  number \<open>n\<close> returns a nil result, then \<open>fullSyncGetQueryResults\<close> stops after
  \<open>n + 1\<close> calls and returns the \<open>n\<close> pages accumulated so far with a nil error.
\<close>

theorem fullSyncGetQueryResults_nil_result:
  fixes qv :: "('s, 'v) manager"
  assumes "\<forall>i<n. \<not> stops (response_at qv s (initial_filter k volumeIds clusterID) i)"
    and "response_at qv s (initial_filter k volumeIds clusterID) n = Inr None"
  shows "\<exists>calls.
           fullSyncGetQueryResults k volumeIds clusterID qv s =
             Some ((pages_upto qv s (initial_filter k volumeIds clusterID) n, None),
                   state_after qv s (initial_filter k volumeIds clusterID) n, calls) \<and>
           length calls = Suc n \<and>
           length (pages_upto qv s (initial_filter k volumeIds clusterID) n) = n"
proof -
  let ?f0 = "initial_filter k volumeIds clusterID"
  from assms(2) have "stops (response_at qv s ?f0 n)" by simp
  from query_loop_stops_at [OF assms(1) this, of "[]" "[]"] assms(2)
  have "fullSyncGetQueryResults k volumeIds clusterID qv s =
          Some ((pages_upto qv s ?f0 n, None), state_after qv s ?f0 n, filters_upto qv s ?f0 (Suc n))"
    by (simp add: fullSyncGetQueryResults_def)
  then show ?thesis
    using length_pages_upto [OF assms(1)] length_filters_upto [of qv s ?f0 "Suc n"] by simp
qed

theorem fullSyncGetQueryResults_nil_result_witness:
  "\<exists>calls.
     fullSyncGetQueryResults sample_consts [] ''cluster-1'' scripted [Inr (Some page1), Inr None]
       = Some (([page1], None), [], calls) \<and>
     length calls = 2"
proof -
  let ?f0 = "initial_filter sample_consts [] ''cluster-1''"
  let ?script = "[Inr (Some page1), Inr None] :: string response list"
  have c1: "call_at scripted ?script ?f0 (Suc 0) =
      ([Inr None], ?f0\<lparr>Cursor := ResultCursor page1\<rparr>)"
    by (simp add: call_at_def)
  have r0: "response_at scripted ?script ?f0 0 = Inr (Some page1)"
    by (simp add: response_at_def call_at_def)
  have h1: "\<forall>i<Suc 0. \<not> stops (response_at scripted ?script ?f0 i)"
    by (simp add: r0) (simp add: page1_def page_def)
  have h2: "response_at scripted ?script ?f0 (Suc 0) = Inr None"
    by (simp add: response_at_def c1)
  have "state_after scripted ?script ?f0 (Suc 0) = []"
    by (simp add: state_after_def c1)
  moreover have "pages_upto scripted ?script ?f0 (Suc 0) = [page1]"
    by (simp add: pages_upto_def r0)
  ultimately show ?thesis
    using fullSyncGetQueryResults_nil_result [OF h1 h2] by (auto simp: numeral_2_eq_2)
qed

text \<open>
  C3 as stated also covers an empty result. A non-nil result without records is not a
  stop: here the first answer is such a page with offset 0 of 5, and the function goes
  on to a second call and returns the empty page together with the next one.
\<close>

theorem fullSyncGetQueryResults_empty_page_counterexample:
  "Volumes empty_page = [] \<and>
   fullSyncGetQueryResults sample_consts [] ''cluster-1'' scripted
       [Inr (Some empty_page), Inr (Some page3)]
     = Some (([empty_page, page3], None), [],
             [initial_filter sample_consts [] ''cluster-1'',
              (initial_filter sample_consts [] ''cluster-1'')\<lparr>Cursor := ResultCursor empty_page\<rparr>])"
proof -
  let ?f0 = "initial_filter sample_consts [] ''cluster-1''"
  let ?f1 = "?f0\<lparr>Cursor := ResultCursor empty_page\<rparr>"
  have "query_loop scripted [Inr (Some empty_page), Inr (Some page3)] ?f0 [] []
      = query_loop scripted [Inr (Some page3)] ?f1 [empty_page] [?f0]"
    using query_loop_continue [of scripted "[Inr (Some empty_page), Inr (Some page3)]" ?f0
            empty_page "[Inr (Some page3)]" "[]" "[]"]
    by (simp add: empty_page_def)
  also have "\<dots> = Some (([empty_page, page3], None), [], [?f0, ?f1])"
    using query_loop_last [of scripted "[Inr (Some page3)]" ?f1 page3 "[]" "[empty_page]" "[?f0]"]
    by (simp add: page3_def page_def)
  finally show ?thesis
    by (simp add: fullSyncGetQueryResults_def empty_page_def)
qed

text \<open>
  C10. \<open>fullSyncGetQueryResults\<close>, and the loop from any state, returns if and only if
  some call in the sequence of its calls is answered with an error, a nil result or a
  page whose cursor has offset equal to total; otherwise it never returns. A non-nil
  page without records whose offset differs from its total is appended, and the loop
  continues with that page's cursor.
\<close>

theorem fullSyncGetQueryResults_terminates_iff:
  fixes qv :: "('s, 'v) manager"
  shows "((fullSyncGetQueryResults k volumeIds clusterID qv s0 \<noteq> None) \<longleftrightarrow>
          (\<exists>n. stops (response_at qv s0 (initial_filter k volumeIds clusterID) n))) \<and>
         ((query_loop qv s flt acc calls \<noteq> None) \<longleftrightarrow>
          (\<exists>n. stops (response_at qv s flt n))) \<and>
         (\<forall>r s'. qv s flt = (Inr (Some r), s') \<and> Volumes r = [] \<and>
                  Offset (ResultCursor r) \<noteq> TotalRecords (ResultCursor r) \<longrightarrow>
                  query_loop qv s flt acc calls =
                    query_loop qv s' (flt\<lparr>Cursor := ResultCursor r\<rparr>) (acc @ [r]) (calls @ [flt]))"
proof -
  have iff: "(query_loop qv s flt acc calls \<noteq> None) \<longleftrightarrow>
             (\<exists>n. stops (response_at qv s flt n))" for s flt acc calls
  proof
    assume "query_loop qv s flt acc calls \<noteq> None"
    then show "\<exists>n. stops (response_at qv s flt n)"
      by (auto dest: query_loop_Some_stops)
  next
    assume ex: "\<exists>n. stops (response_at qv s flt n)"
    define n where "n = (LEAST n. stops (response_at qv s flt n))"
    have "stops (response_at qv s flt n)"
      unfolding n_def using ex by (rule LeastI_ex)
    moreover have "\<forall>i<n. \<not> stops (response_at qv s flt i)"
      unfolding n_def using not_less_Least by blast
    ultimately show "query_loop qv s flt acc calls \<noteq> None"
      using query_loop_stops_at [of n qv s flt acc calls] by simp
  qed
  show ?thesis
    using iff [of s flt acc calls] iff [of s0 "initial_filter k volumeIds clusterID" "[]" "[]"]
    by (simp add: fullSyncGetQueryResults_def query_loop_continue)
qed

lemma response_at_stuck: "response_at stuck s flt n = Inr (Some empty_page)"
  by (simp add: response_at_def stuck_def split: prod.splits)

theorem fullSyncGetQueryResults_terminates_iff_witness:
  "fullSyncGetQueryResults sample_consts [] ''cluster-1'' stuck () = None \<and>
   query_loop stuck () (initial_filter sample_consts [] ''cluster-1'') [] [] =
     query_loop stuck () ((initial_filter sample_consts [] ''cluster-1'')\<lparr>Cursor := ResultCursor empty_page\<rparr>)
       [empty_page] [initial_filter sample_consts [] ''cluster-1''] \<and>
   fullSyncGetQueryResults sample_consts [] ''cluster-1'' scripted [Inr (Some page3)] \<noteq> None"
proof -
  let ?f0 = "initial_filter sample_consts [] ''cluster-1''"
  note t = fullSyncGetQueryResults_terminates_iff
             [of sample_consts "[]" "''cluster-1''" stuck "()" "()" ?f0 "[]" "[]"]
  have "\<not> (\<exists>n. stops (response_at stuck () ?f0 n))"
    by (simp add: response_at_stuck empty_page_def)
  with t [THEN conjunct1]
  have a: "fullSyncGetQueryResults sample_consts [] ''cluster-1'' stuck () = None"
    by blast
  have "stuck () ?f0 = (Inr (Some empty_page), ()) \<and> Volumes empty_page = [] \<and>
        Offset (ResultCursor empty_page) \<noteq> TotalRecords (ResultCursor empty_page)"
    by (simp add: stuck_def empty_page_def)
  with t [THEN conjunct2, THEN conjunct2]
  have b: "query_loop stuck () ?f0 [] [] =
     query_loop stuck () (?f0\<lparr>Cursor := ResultCursor empty_page\<rparr>) [empty_page] [?f0]"
    by fastforce
  have "stops (response_at scripted [Inr (Some page3)] ?f0 0 :: string response)"
    by (simp add: response_at_def call_at_def page3_def page_def)
  then have "\<exists>n. stops (response_at scripted [Inr (Some page3)] ?f0 n :: string response)" ..
  with fullSyncGetQueryResults_terminates_iff
         [of sample_consts "[]" "''cluster-1''" scripted "[Inr (Some page3)]" "[]" ?f0 "[]" "[]",
          THEN conjunct1]
  have c: "fullSyncGetQueryResults sample_consts [] ''cluster-1'' scripted [Inr (Some page3)] \<noteq> None"
    by blast
  from a b c show ?thesis by blast
qed

section \<open>Results on volume discovery\<close>

lemma has_plugin_driver_iff:
  "has_plugin_driver k pv \<longleftrightarrow> map_option Driver (pv_Spec_CSI pv) = Some (Name k)"
  by (simp add: has_plugin_driver_def split: option.splits)

lemma desired_state_loop_Cons:
  "desired_state_loop k fss (pv # allPVs) acc =
     desired_state_loop k fss allPVs
       (if owned_or_migrated k fss pv \<and> bound_available_or_released pv then acc @ [pv] else acc)"
  by (auto simp: owned_or_migrated_def bound_available_or_released_def has_plugin_driver_iff)

lemma desired_state_loop_filter:
  "desired_state_loop k fss allPVs acc =
     acc @ filter (\<lambda>pv. owned_or_migrated k fss pv \<and> bound_available_or_released pv) allPVs"
proof (induction allPVs arbitrary: acc)
  case Nil
  show ?case by simp
next
  case (Cons pv allPVs)
  show ?case
    unfolding desired_state_loop_Cons Cons.IH by simp
qed

lemma bound_loop_filter:
  "bound_loop k allPVs acc =
     acc @ filter (\<lambda>pv. map_option Driver (pv_Spec_CSI pv) = Some (Name k) \<and>
                         pv_Status_Phase pv = VolumeBound) allPVs"
  by (induction allPVs arbitrary: acc) (simp_all add: has_plugin_driver_iff)

text \<open>
  C4. When the lister succeeds, \<open>getPVsInBoundAvailableOrReleased\<close> returns, in lister
  order and with a nil error, exactly the volumes that pass the ownership filter (a CSI
  source with this plugin's driver name, or migration enabled and a legacy vSphere
  source with valid migration annotations) and are in phase Bound, Available or
  Released. When the lister fails it returns a nil slice and the lister's error.
\<close>

theorem getPVsInBoundAvailableOrReleased_exact:
  "getPVsInBoundAvailableOrReleased k fss (Inr allPVs) =
     (filter (\<lambda>pv. owned_or_migrated k fss pv \<and> bound_available_or_released pv) allPVs, None) \<and>
   getPVsInBoundAvailableOrReleased k fss (Inl err) = ([], Some err)"
  by (simp add: getPVsInBoundAvailableOrReleased_def desired_state_loop_filter)

lemma sample_consts_simps:
  "Name sample_consts = ''csi.vsphere.vmware.com''"
  "AnnMigratedTo sample_consts = ''pv.kubernetes.io/migrated-to''"
  "AnnStorageProvisioner sample_consts = ''volume.beta.kubernetes.io/storage-provisioner''"
  "AnnDynamicallyProvisioned sample_consts = ''pv.kubernetes.io/provisioned-by''"
  "InTreePluginName sample_consts = ''kubernetes.io/vsphere-volume''"
  by (simp_all add: sample_consts_def)

lemma owned_migrated_pv: "owned_or_migrated sample_consts fss migrated_pv \<longleftrightarrow> fss"
  by (simp add: owned_or_migrated_def migrated_pv_def isValidvSphereVolume_def index_def
      sample_consts_simps)

lemma owned_legacy_pv: "\<not> owned_or_migrated sample_consts fss legacy_pv"
  by (simp add: owned_or_migrated_def legacy_pv_def isValidvSphereVolume_def index_def
      sample_consts_simps)

lemma owned_csi_pv:
  "owned_or_migrated sample_consts fss (csi_pv name driver phase) \<longleftrightarrow>
     driver = ''csi.vsphere.vmware.com''"
  by (simp add: owned_or_migrated_def csi_pv_def sample_consts_simps)

lemma phase_simps:
  "bound_available_or_released migrated_pv"
  "bound_available_or_released legacy_pv"
  "bound_available_or_released (csi_pv name driver phase) \<longleftrightarrow>
     phase = ''Bound'' \<or> phase = ''Available'' \<or> phase = ''Released''"
  by (simp_all add: bound_available_or_released_def migrated_pv_def legacy_pv_def csi_pv_def
      VolumeBound_def VolumeAvailable_def VolumeReleased_def)

theorem getPVsInBoundAvailableOrReleased_exact_witness:
  "getPVsInBoundAvailableOrReleased sample_consts True (Inr sample_pvs) =
     ([csi_pv ''pv-1'' ''csi.vsphere.vmware.com'' ''Bound'', migrated_pv,
       csi_pv ''pv-4'' ''csi.vsphere.vmware.com'' ''Released''], None) \<and>
   getPVsInBoundAvailableOrReleased sample_consts False (Inr sample_pvs) =
     ([csi_pv ''pv-1'' ''csi.vsphere.vmware.com'' ''Bound'',
       csi_pv ''pv-4'' ''csi.vsphere.vmware.com'' ''Released''], None) \<and>
   getPVsInBoundAvailableOrReleased sample_consts True (Inl (Error ''cache not synced'')) =
     ([], Some (Error ''cache not synced''))"
  using getPVsInBoundAvailableOrReleased_exact [of sample_consts True sample_pvs "Error ''cache not synced''"]
    getPVsInBoundAvailableOrReleased_exact [of sample_consts False sample_pvs "Error ''cache not synced''"]
  by (simp add: sample_pvs_def owned_migrated_pv owned_legacy_pv owned_csi_pv phase_simps)

text \<open>
  C5 as stated gives \<open>getBoundPVs\<close> the ownership filter of
  \<open>getPVsInBoundAvailableOrReleased\<close>. With migration enabled, a bound legacy volume
  with valid migration annotations passes that filter and is returned by
  \<open>getPVsInBoundAvailableOrReleased\<close>, but \<open>getBoundPVs\<close> leaves it out.
\<close>

theorem getBoundPVs_migrated_counterexample:
  "owned_or_migrated sample_consts True migrated_pv \<and>
   pv_Status_Phase migrated_pv = VolumeBound \<and>
   getPVsInBoundAvailableOrReleased sample_consts True (Inr [migrated_pv]) = ([migrated_pv], None) \<and>
   getBoundPVs sample_consts (Inr [migrated_pv]) = ([], None)"
proof -
  have "owned_or_migrated sample_consts True migrated_pv"
    by (simp add: owned_migrated_pv)
  moreover have "pv_Status_Phase migrated_pv = VolumeBound"
    by (simp add: migrated_pv_def VolumeBound_def)
  moreover have "getPVsInBoundAvailableOrReleased sample_consts True (Inr [migrated_pv]) =
      ([migrated_pv], None)"
    by (simp add: getPVsInBoundAvailableOrReleased_def desired_state_loop_filter
        owned_migrated_pv phase_simps)
  moreover have "getBoundPVs sample_consts (Inr [migrated_pv]) = ([], None)"
    by (simp add: getBoundPVs_def bound_loop_filter migrated_pv_def)
  ultimately show ?thesis by simp
qed

text \<open>
  C5, amended. When the lister succeeds, \<open>getBoundPVs\<close> returns, in lister order and
  with a nil error, exactly the volumes that have a CSI source with this plugin's driver
  name and are in phase Bound; the migration feature and legacy vSphere sources play no
  part. When the lister fails it returns a nil slice and the lister's error.
\<close>

theorem getBoundPVs_exact:
  "getBoundPVs k (Inr allPVs) =
     (filter (\<lambda>pv. map_option Driver (pv_Spec_CSI pv) = Some (Name k) \<and>
                    pv_Status_Phase pv = VolumeBound) allPVs, None) \<and>
   getBoundPVs k (Inl err) = ([], Some err)"
  by (simp add: getBoundPVs_def bound_loop_filter)

theorem getBoundPVs_exact_witness:
  "getBoundPVs sample_consts (Inr sample_pvs) =
     ([csi_pv ''pv-1'' ''csi.vsphere.vmware.com'' ''Bound''], None)"
  using getBoundPVs_exact [of sample_consts sample_pvs "Error ''unused''"]
  by (simp add: sample_pvs_def sample_consts_simps csi_pv_def migrated_pv_def legacy_pv_def
      VolumeBound_def)

section \<open>Results on the validity predicates\<close>

text \<open>
  C6 as stated makes \<open>IsValidVolume\<close> accept a legacy vSphere volume only when it is
  validly migrated. With migration enabled, a legacy volume that carries no migration
  annotation, and so fails \<open>isValidvSphereVolume\<close> and the ownership filter of
  discovery, is accepted all the same.
\<close>

theorem IsValidVolume_legacy_counterexample:
  "IsValidVolume sample_consts True (pvc_cache (claim_for ''pv-legacy'')) (pv_cache legacy_pv)
       claim_volume (pod_with ''pod-1'' [claim_volume])
     = Some ((True, Some legacy_pv, Some (claim_for ''pv-legacy'')), []) \<and>
   \<not> isValidvSphereVolume sample_consts (pv_ObjectMeta legacy_pv) \<and>
   \<not> owned_or_migrated sample_consts True legacy_pv"
proof -
  have "IsValidVolume sample_consts True (pvc_cache (claim_for ''pv-legacy'')) (pv_cache legacy_pv)
       claim_volume (pod_with ''pod-1'' [claim_volume])
     = Some ((True, Some legacy_pv, Some (claim_for ''pv-legacy'')), [])"
    by (simp add: IsValidVolume_def claim_volume_def pod_with_def pvc_cache_def pv_cache_def
        claim_for_def legacy_pv_def)
  moreover have "\<not> isValidvSphereVolume sample_consts (pv_ObjectMeta legacy_pv)"
    by (simp add: isValidvSphereVolume_def legacy_pv_def index_def sample_consts_simps)
  ultimately show ?thesis
    by (simp add: owned_legacy_pv)
qed

text \<open>
  C6, amended. For a pod volume whose claim and volume lookups succeed: with migration
  enabled, \<open>IsValidVolume\<close> returns true with the volume and the claim if and only if
  the volume has a CSI source with this plugin's driver name or has a legacy vSphere
  source (the migration annotations are not read), and otherwise returns false after a
  debug message; with migration disabled, a volume with a legacy vSphere source is
  rejected with a warning, and a volume without one that has a CSI source with this
  plugin's driver name is accepted.
\<close>

theorem IsValidVolume_decision:
  assumes "vol_PersistentVolumeClaim volume = Some pvcName"
    and "pvcLister_Get (Namespace (pod_ObjectMeta pod)) pvcName = Inr pvc"
    and "pvLister_Get (pvc_Spec_VolumeName pvc) = Inr pv"
  shows "IsValidVolume k True pvcLister_Get pvLister_Get volume pod =
           Some (if map_option Driver (pv_Spec_CSI pv) = Some (Name k) \<or>
                    pv_Spec_VsphereVolume pv \<noteq> None
                 then ((True, Some pv, Some pvc), [])
                 else ((False, None, None), [Debugf])) \<and>
         (pv_Spec_VsphereVolume pv \<noteq> None \<longrightarrow>
            IsValidVolume k False pvcLister_Get pvLister_Get volume pod =
              Some ((False, None, None), [Warnf])) \<and>
         (pv_Spec_VsphereVolume pv = None \<and>
          map_option Driver (pv_Spec_CSI pv) = Some (Name k) \<longrightarrow>
            IsValidVolume k False pvcLister_Get pvLister_Get volume pod =
              Some ((True, Some pv, Some pvc), []))"
  using assms by (auto simp: IsValidVolume_def split: option.splits)

theorem IsValidVolume_decision_witness:
  "IsValidVolume sample_consts True (pvc_cache (claim_for ''pv-migrated'')) (pv_cache migrated_pv)
       claim_volume (pod_with ''pod-1'' [claim_volume])
     = Some ((True, Some migrated_pv, Some (claim_for ''pv-migrated'')), []) \<and>
   IsValidVolume sample_consts False (pvc_cache (claim_for ''pv-migrated'')) (pv_cache migrated_pv)
       claim_volume (pod_with ''pod-1'' [claim_volume])
     = Some ((False, None, None), [Warnf]) \<and>
   IsValidVolume sample_consts False (pvc_cache (claim_for ''pv-1''))
       (pv_cache (csi_pv ''pv-1'' ''csi.vsphere.vmware.com'' ''Bound''))
       claim_volume (pod_with ''pod-1'' [claim_volume])
     = Some ((True, Some (csi_pv ''pv-1'' ''csi.vsphere.vmware.com'' ''Bound''),
              Some (claim_for ''pv-1'')), [])"
proof -
  let ?pod = "pod_with ''pod-1'' [claim_volume]"
  let ?pv1 = "csi_pv ''pv-1'' ''csi.vsphere.vmware.com'' ''Bound''"
  have v: "vol_PersistentVolumeClaim claim_volume = Some ''claim-1''"
    by (simp add: claim_volume_def)
  have c: "pvc_cache (claim_for name) (Namespace (pod_ObjectMeta ?pod)) ''claim-1''
           = Inr (claim_for name)" for name
    by (simp add: pvc_cache_def claim_for_def pod_with_def)
  have p: "pv_cache migrated_pv (pvc_Spec_VolumeName (claim_for ''pv-migrated'')) = Inr migrated_pv"
    by (simp add: pv_cache_def claim_for_def migrated_pv_def)
  have p1: "pv_cache ?pv1 (pvc_Spec_VolumeName (claim_for ''pv-1'')) = Inr ?pv1"
    by (simp add: pv_cache_def claim_for_def csi_pv_def)
  have l: "pv_Spec_VsphereVolume migrated_pv \<noteq> None"
    by (simp add: migrated_pv_def)
  have l1: "pv_Spec_VsphereVolume ?pv1 = None \<and>
            map_option Driver (pv_Spec_CSI ?pv1) = Some (Name sample_consts)"
    by (simp add: csi_pv_def sample_consts_simps)
  from IsValidVolume_decision
         [where pvcLister_Get = "pvc_cache (claim_for ''pv-migrated'')"
            and pvLister_Get = "pv_cache migrated_pv" and k = sample_consts, OF v c p] l
  have "IsValidVolume sample_consts True (pvc_cache (claim_for ''pv-migrated'')) (pv_cache migrated_pv)
            claim_volume ?pod
          = Some ((True, Some migrated_pv, Some (claim_for ''pv-migrated'')), []) \<and>
        IsValidVolume sample_consts False (pvc_cache (claim_for ''pv-migrated'')) (pv_cache migrated_pv)
            claim_volume ?pod
          = Some ((False, None, None), [Warnf])"
    by simp
  moreover from IsValidVolume_decision
         [where pvcLister_Get = "pvc_cache (claim_for ''pv-1'')"
            and pvLister_Get = "pv_cache ?pv1" and k = sample_consts, OF v c p1] l1
  have "IsValidVolume sample_consts False (pvc_cache (claim_for ''pv-1'')) (pv_cache ?pv1)
            claim_volume ?pod
          = Some ((True, Some ?pv1, Some (claim_for ''pv-1'')), [])"
    by simp
  ultimately show ?thesis by simp
qed

text \<open>
  C7. The plugin's name and the in-tree plugin's name being non-empty strings,
  \<open>isValidvSphereVolumeClaim\<close> holds if and only if either the migrated-to annotation
  is present with the plugin's name and the storage-provisioner annotation is the
  in-tree plugin's name, or the migrated-to annotation is absent and the
  storage-provisioner annotation is the plugin's name. A migrated-to annotation with
  any other value makes it false.
\<close>

theorem isValidvSphereVolumeClaim_iff:
  assumes "Name k \<noteq> ''''" and "InTreePluginName k \<noteq> ''''"
  shows "(isValidvSphereVolumeClaim k pvcMetadata \<longleftrightarrow>
            (Annotations pvcMetadata (AnnMigratedTo k) = Some (Name k) \<and>
             Annotations pvcMetadata (AnnStorageProvisioner k) = Some (InTreePluginName k)) \<or>
            (Annotations pvcMetadata (AnnMigratedTo k) = None \<and>
             Annotations pvcMetadata (AnnStorageProvisioner k) = Some (Name k))) \<and>
         (\<forall>v. Annotations pvcMetadata (AnnMigratedTo k) = Some v \<and> v \<noteq> Name k \<longrightarrow>
              \<not> isValidvSphereVolumeClaim k pvcMetadata)"
  using assms
  by (auto simp: isValidvSphereVolumeClaim_def index_def split: option.splits)

theorem isValidvSphereVolumeClaim_iff_witness:
  "isValidvSphereVolumeClaim sample_consts
     \<lparr> ObjName = ''claim-1'', Namespace = ''default'',
       Annotations = [''pv.kubernetes.io/migrated-to'' \<mapsto> ''csi.vsphere.vmware.com'',
                      ''volume.beta.kubernetes.io/storage-provisioner'' \<mapsto> ''kubernetes.io/vsphere-volume''] \<rparr> \<and>
   \<not> isValidvSphereVolumeClaim sample_consts
     \<lparr> ObjName = ''claim-2'', Namespace = ''default'',
       Annotations = [''pv.kubernetes.io/migrated-to'' \<mapsto> ''ebs.csi.aws.com'',
                      ''volume.beta.kubernetes.io/storage-provisioner'' \<mapsto> ''kubernetes.io/vsphere-volume''] \<rparr>"
proof -
  have n: "Name sample_consts \<noteq> ''''" and t: "InTreePluginName sample_consts \<noteq> ''''"
    by (simp_all add: sample_consts_simps)
  show ?thesis
    using isValidvSphereVolumeClaim_iff [OF n t, of
        "\<lparr> ObjName = ''claim-1'', Namespace = ''default'',
           Annotations = [''pv.kubernetes.io/migrated-to'' \<mapsto> ''csi.vsphere.vmware.com'',
                          ''volume.beta.kubernetes.io/storage-provisioner'' \<mapsto> ''kubernetes.io/vsphere-volume''] \<rparr>"]
      isValidvSphereVolumeClaim_iff [OF n t, of
        "\<lparr> ObjName = ''claim-2'', Namespace = ''default'',
           Annotations = [''pv.kubernetes.io/migrated-to'' \<mapsto> ''ebs.csi.aws.com'',
                          ''volume.beta.kubernetes.io/storage-provisioner'' \<mapsto> ''kubernetes.io/vsphere-volume''] \<rparr>"]
    by (simp add: sample_consts_simps)
qed

text \<open>
  C8. \<open>GetSCNameFromPVC\<close> returns the claim's \<open>StorageClassName\<close> when it is set and
  not empty; otherwise the value of the annotation
  \<open>volume.beta.kubernetes.io/storage-class\<close> when that is present and not empty;
  otherwise the error "storage class name not specified in PVC". It never returns an
  empty name with a nil error.
\<close>

theorem GetSCNameFromPVC_resolution:
  "(\<forall>scName. pvc_Spec_StorageClassName pvc = Some scName \<and> scName \<noteq> '''' \<longrightarrow>
        GetSCNameFromPVC pvc = Inr scName) \<and>
   (pvc_Spec_StorageClassName pvc = None \<or> pvc_Spec_StorageClassName pvc = Some '''' \<longrightarrow>
      (\<forall>v. Annotations (pvc_ObjectMeta pvc) ''volume.beta.kubernetes.io/storage-class'' = Some v \<and>
           v \<noteq> '''' \<longrightarrow> GetSCNameFromPVC pvc = Inr v) \<and>
      (Annotations (pvc_ObjectMeta pvc) ''volume.beta.kubernetes.io/storage-class'' = None \<or>
       Annotations (pvc_ObjectMeta pvc) ''volume.beta.kubernetes.io/storage-class'' = Some '''' \<longrightarrow>
         GetSCNameFromPVC pvc = Inl (Error ''storage class name not specified in PVC''))) \<and>
   GetSCNameFromPVC pvc \<noteq> Inr ''''"
  by (auto simp: GetSCNameFromPVC_def scNameAnnotationKey_def index_def Let_def
      split: option.splits)

theorem GetSCNameFromPVC_resolution_witness:
  "GetSCNameFromPVC
     \<lparr> pvc_ObjectMeta = \<lparr> ObjName = ''claim-1'', Namespace = ''default'',
          Annotations = [''volume.beta.kubernetes.io/storage-class'' \<mapsto> ''fast-disk''] \<rparr>,
       pvc_Spec_VolumeName = ''pv-1'', pvc_Spec_StorageClassName = Some '''' \<rparr>
     = Inr ''fast-disk'' \<and>
   GetSCNameFromPVC
     \<lparr> pvc_ObjectMeta = \<lparr> ObjName = ''claim-1'', Namespace = ''default'', Annotations = Map.empty \<rparr>,
       pvc_Spec_VolumeName = ''pv-1'', pvc_Spec_StorageClassName = None \<rparr>
     = Inl (Error ''storage class name not specified in PVC'') \<and>
   GetSCNameFromPVC
     \<lparr> pvc_ObjectMeta = \<lparr> ObjName = ''claim-1'', Namespace = ''default'',
          Annotations = [''volume.beta.kubernetes.io/storage-class'' \<mapsto> ''fast-disk''] \<rparr>,
       pvc_Spec_VolumeName = ''pv-1'', pvc_Spec_StorageClassName = Some ''gold'' \<rparr>
     = Inr ''gold''"
  using GetSCNameFromPVC_resolution [of
      "\<lparr> pvc_ObjectMeta = \<lparr> ObjName = ''claim-1'', Namespace = ''default'',
           Annotations = [''volume.beta.kubernetes.io/storage-class'' \<mapsto> ''fast-disk''] \<rparr>,
         pvc_Spec_VolumeName = ''pv-1'', pvc_Spec_StorageClassName = Some '''' \<rparr>"]
    GetSCNameFromPVC_resolution [of
      "\<lparr> pvc_ObjectMeta = \<lparr> ObjName = ''claim-1'', Namespace = ''default'', Annotations = Map.empty \<rparr>,
         pvc_Spec_VolumeName = ''pv-1'', pvc_Spec_StorageClassName = None \<rparr>"]
    GetSCNameFromPVC_resolution [of
      "\<lparr> pvc_ObjectMeta = \<lparr> ObjName = ''claim-1'', Namespace = ''default'',
           Annotations = [''volume.beta.kubernetes.io/storage-class'' \<mapsto> ''fast-disk''] \<rparr>,
         pvc_Spec_VolumeName = ''pv-1'', pvc_Spec_StorageClassName = Some ''gold'' \<rparr>"]
  by simp

section \<open>Results on inline volume discovery\<close>

lemma volume_refs_Nil: "volume_refs [] = []"
  by (simp add: volume_refs_def List.map_filter_simps)

lemma volume_refs_Cons:
  "volume_refs (volume # volumes) =
     (case vol_VsphereVolume volume of
        None \<Rightarrow> volume_refs volumes
      | Some vs \<Rightarrow> \<lparr> spec_VolumePath = VolumePath vs, spec_StoragePolicyName = StoragePolicyName vs \<rparr>
                    # volume_refs volumes)"
  by (simp add: volume_refs_def List.map_filter_simps split: option.splits)

lemma serve_append:
  "serve getVolumeID m (xs @ ys) =
     (fst (serve getVolumeID m xs) @ fst (serve getVolumeID (snd (serve getVolumeID m xs)) ys),
      snd (serve getVolumeID (snd (serve getVolumeID m xs)) ys))"
  by (induction xs arbitrary: m) (simp_all split: prod.splits)

lemma resolved_append: "resolved (xs @ ys) = resolved xs @ resolved ys"
  by (induction xs rule: resolved.induct) simp_all

lemma failures_append: "failures (xs @ ys) = failures xs + failures ys"
  by (induction xs rule: failures.induct) simp_all

lemma map_of_rev_resolved_append:
  "map_of (rev (resolved (xs @ ys))) = map_of (rev (resolved xs)) ++ map_of (rev (resolved ys))"
  by (simp add: resolved_append)

lemma inline_volumes_loop_off: "inline_volumes_loop getVolumeID False volumes st = st"
  by (induction volumes) (simp_all split: option.splits)

lemma inline_pods_loop_off: "inline_pods_loop getVolumeID False allPods st = st"
  by (induction allPods) (simp_all add: inline_volumes_loop_off)

lemma inline_volumes_loop_on:
  "inline_volumes_loop getVolumeID True volumes st =
     after_answers st (serve getVolumeID (service st) (volume_refs volumes))"
proof (induction volumes arbitrary: st)
  case Nil
  show ?case by (simp add: volume_refs_Nil after_answers_def)
next
  case (Cons volume volumes)
  show ?case
  proof (cases "vol_VsphereVolume volume")
    case None
    then show ?thesis by (simp add: Cons.IH volume_refs_Cons)
  next
    case (Some vs)
    let ?spec = "\<lparr> spec_VolumePath = VolumePath vs, spec_StoragePolicyName = StoragePolicyName vs \<rparr>"
    obtain answer m' where a: "getVolumeID (service st) ?spec = (answer, m')"
      by (cases "getVolumeID (service st) ?spec")
    obtain answers m'' where r: "serve getVolumeID m' (volume_refs volumes) = (answers, m'')"
      by (cases "serve getVolumeID m' (volume_refs volumes)")
    show ?thesis
    proof (cases answer)
      case (Inl err)
      with Some a r show ?thesis
        by (simp add: Cons.IH volume_refs_Cons after_answers_def replicate_app_Cons_same)
    next
      case (Inr volumeHandle)
      with Some a r show ?thesis
        by (simp add: Cons.IH volume_refs_Cons after_answers_def map_of_append)
    qed
  qed
qed


lemma after_answers_twice:
  "after_answers (after_answers st (xs, m')) (ys, m'') = after_answers st (xs @ ys, m'')"
  by (simp add: after_answers_def resolved_append failures_append replicate_add map_of_append)

lemma inline_pods_loop_on:
  "inline_pods_loop getVolumeID True allPods st =
     after_answers st (serve getVolumeID (service st) (inline_refs allPods))"
proof (induction allPods arbitrary: st)
  case Nil
  show ?case by (simp add: inline_refs_def after_answers_def)
next
  case (Cons pod allPods)
  let ?refs = "volume_refs (pod_Spec_Volumes pod)"
  obtain xs m' where x: "serve getVolumeID (service st) ?refs = (xs, m')"
    by (cases "serve getVolumeID (service st) ?refs")
  obtain ys m'' where y: "serve getVolumeID m' (inline_refs allPods) = (ys, m'')"
    by (cases "serve getVolumeID m' (inline_refs allPods)")
  have s: "service (after_answers st (xs, m')) = m'"
    by (simp add: after_answers_def)
  have "inline_pods_loop getVolumeID True (pod # allPods) st =
        after_answers (after_answers st (xs, m')) (ys, m'')"
    by (simp add: Cons.IH inline_volumes_loop_on x s y)
  also have "\<dots> = after_answers st (xs @ ys, m'')"
    by (rule after_answers_twice)
  also have "(xs @ ys, m'') = serve getVolumeID (service st) (inline_refs (pod # allPods))"
    using x y by (simp add: inline_refs_def serve_append)
  finally show ?case .
qed

lemma resolved_set:
  "(volumeHandle, path) \<in> set (resolved answers) \<longleftrightarrow>
     (\<exists>spec. (spec, Inr volumeHandle) \<in> set answers \<and> spec_VolumePath spec = path)"
  by (induction answers rule: resolved.induct) auto

lemma serve_refs: "map fst (fst (serve getVolumeID m specs)) = specs"
proof (induction specs arbitrary: m)
  case Nil
  show ?case by simp
next
  case (Cons spec specs)
  obtain answer m' where a: "getVolumeID m spec = (answer, m')"
    by (cases "getVolumeID m spec")
  obtain answers m'' where r: "serve getVolumeID m' specs = (answers, m'')"
    by (cases "serve getVolumeID m' specs")
  from Cons.IH [of m'] r have "map fst answers = specs" by simp
  with a r show ?case by simp
qed

lemma last_writer:
  assumes "answers = before @ (spec, Inr volumeHandle) # after"
    and "\<forall>spec'. (spec', Inr volumeHandle) \<notin> set after"
  shows "map_of (rev (resolved answers)) volumeHandle = Some (spec_VolumePath spec)"
proof -
  have "volumeHandle \<notin> fst ` set (rev (resolved after))"
    using assms(2) by (auto simp: resolved_set)
  then have "map_of (rev (resolved after)) volumeHandle = None"
    using map_of_eq_None_iff [of "rev (resolved after)" volumeHandle] by blast
  then show ?thesis
    unfolding assms(1) by (simp add: resolved_append map_of_append map_add_def)
qed

lemma aliased_refs:
  "inline_refs aliased_pods =
     [\<lparr> spec_VolumePath = ''[ds1] kubevols/x.vmdk'', spec_StoragePolicyName = '''' \<rparr>,
      \<lparr> spec_VolumePath = ''[ds1] kubevols/z.vmdk'', spec_StoragePolicyName = '''' \<rparr>]"
  by (simp add: inline_refs_def aliased_pods_def pod_with_def volume_refs_def inline_volume_def
      vmdk_def List.map_filter_simps)

lemma aliased_answers:
  "serve aliasing_service 0 (inline_refs aliased_pods) =
     ([(\<lparr> spec_VolumePath = ''[ds1] kubevols/x.vmdk'', spec_StoragePolicyName = '''' \<rparr>, Inr ''vol-same''),
       (\<lparr> spec_VolumePath = ''[ds1] kubevols/z.vmdk'', spec_StoragePolicyName = '''' \<rparr>, Inr ''vol-same'')],
      Suc (Suc 0))"
  by (simp add: aliased_refs aliasing_service_def)

text \<open>
  C9 as stated has the returned map send every resolved volume ID to the legacy path
  of the reference that resolved to it. Here two pods mount different disks and the
  service resolves both to the same ID: both lookups succeed, and the map holds the
  path of the second reference only, not the path of the first.
\<close>

theorem fullSyncGetInlineMigratedVolumesInfo_alias_counterexample:
  "lookups (snd (fullSyncGetInlineMigratedVolumesInfo aliasing_service 0 (Inr aliased_pods) True)) =
     [(\<lparr> spec_VolumePath = ''[ds1] kubevols/x.vmdk'', spec_StoragePolicyName = '''' \<rparr>, Inr ''vol-same''),
      (\<lparr> spec_VolumePath = ''[ds1] kubevols/z.vmdk'', spec_StoragePolicyName = '''' \<rparr>, Inr ''vol-same'')] \<and>
   fst (fullSyncGetInlineMigratedVolumesInfo aliasing_service 0 (Inr aliased_pods) True) =
     (Some [''vol-same'' \<mapsto> ''[ds1] kubevols/z.vmdk''], None) \<and>
   [''vol-same'' \<mapsto> ''[ds1] kubevols/z.vmdk''] ''vol-same'' \<noteq> Some ''[ds1] kubevols/x.vmdk''"
  by (simp add: fullSyncGetInlineMigratedVolumesInfo_def inline_pods_loop_on after_answers_def
      aliased_answers)

text \<open>
  C9, amended. When listing the pods fails, \<open>fullSyncGetInlineMigratedVolumesInfo\<close>
  returns a nil map and the lister's error, and asks the migration service nothing.
  When the flag is false it returns the empty map and a nil error, again without a
  call. When the flag is true it asks the service, in order, for every inline vSphere
  volume of every pod, one call per reference whether or not earlier calls failed, and
  returns with a nil error the map built from the successful answers: every volume ID
  the service returned is a key, every key is mapped to the legacy path of a reference
  that resolved to it, namely of the last reference, in the order of the calls, that
  resolved to that ID, and one warning is logged for each failed call.
\<close>

theorem fullSyncGetInlineMigratedVolumesInfo_result:
  fixes getVolumeID :: "'m migration_service"
  defines "run \<equiv> fullSyncGetInlineMigratedVolumesInfo getVolumeID"
  shows
    "fst (run m (Inl err) migrationFeatureState) = (None, Some err) \<and>
     lookups (snd (run m (Inl err) migrationFeatureState)) = [] \<and>
     fst (run m (Inr allPods) False) = (Some Map.empty, None) \<and>
     lookups (snd (run m (Inr allPods) False)) = [] \<and>
     logged (snd (run m (Inr allPods) False)) = [] \<and>
     (\<exists>inlineVolumes answers.
        fst (run m (Inr allPods) True) = (Some inlineVolumes, None) \<and>
        lookups (snd (run m (Inr allPods) True)) = answers \<and>
        answers = fst (serve getVolumeID m (inline_refs allPods)) \<and>
        map fst answers = inline_refs allPods \<and>
        inlineVolumes = map_of (rev (resolved answers)) \<and>
        (\<forall>spec volumeHandle. (spec, Inr volumeHandle) \<in> set answers \<longrightarrow>
            volumeHandle \<in> dom inlineVolumes) \<and>
        (\<forall>volumeHandle path. inlineVolumes volumeHandle = Some path \<longrightarrow>
            (\<exists>spec. (spec, Inr volumeHandle) \<in> set answers \<and> spec_VolumePath spec = path)) \<and>
        (\<forall>before spec volumeHandle after.
            answers = before @ (spec, Inr volumeHandle) # after \<and>
            (\<forall>spec'. (spec', Inr volumeHandle) \<notin> set after) \<longrightarrow>
            inlineVolumes volumeHandle = Some (spec_VolumePath spec)) \<and>
        logged (snd (run m (Inr allPods) True)) = replicate (failures answers) Warnf)"
proof -
  let ?answers = "fst (serve getVolumeID m (inline_refs allPods))"
  let ?map = "map_of (rev (resolved ?answers))"
  have dom: "volumeHandle \<in> dom ?map" if "(spec, Inr volumeHandle) \<in> set ?answers"
    for spec volumeHandle
  proof -
    from that have "(volumeHandle, spec_VolumePath spec) \<in> set (rev (resolved ?answers))"
      by (auto simp: resolved_set)
    then have "volumeHandle \<in> fst ` set (rev (resolved ?answers))"
      by force
    then show ?thesis by (simp only: dom_map_of_conv_image_fst)
  qed
  have val: "\<exists>spec. (spec, Inr volumeHandle) \<in> set ?answers \<and> spec_VolumePath spec = path"
    if "?map volumeHandle = Some path" for volumeHandle path
  proof -
    from that have "(volumeHandle, path) \<in> set (rev (resolved ?answers))"
      by (rule map_of_SomeD)
    then show ?thesis by (simp add: resolved_set)
  qed
  have last: "\<forall>before spec volumeHandle after.
      ?answers = before @ (spec, Inr volumeHandle) # after \<and>
      (\<forall>spec'. (spec', Inr volumeHandle) \<notin> set after) \<longrightarrow>
      ?map volumeHandle = Some (spec_VolumePath spec)"
    using last_writer by blast
  have on: "run m (Inr allPods) True =
      ((Some ?map, None),
       \<lparr> inlineVolumes = ?map, service = snd (serve getVolumeID m (inline_refs allPods)),
         lookups = ?answers, logged = replicate (failures ?answers) Warnf \<rparr>)"
    by (simp add: run_def fullSyncGetInlineMigratedVolumesInfo_def inline_pods_loop_on
        after_answers_def)
  have off: "run m (Inr allPods) False =
      ((Some Map.empty, None),
       \<lparr> inlineVolumes = Map.empty, service = m, lookups = [], logged = [] \<rparr>)"
    by (simp add: run_def fullSyncGetInlineMigratedVolumesInfo_def inline_pods_loop_off)
  have fail: "run m (Inl err) migrationFeatureState =
      ((None, Some err),
       \<lparr> inlineVolumes = Map.empty, service = m, lookups = [], logged = [Errorf] \<rparr>)"
    by (simp add: run_def fullSyncGetInlineMigratedVolumesInfo_def)
  show ?thesis
    unfolding on off fail
    apply (simp add: serve_refs)
    using dom val last apply blast
    done
qed

lemma sample_refs:
  "inline_refs sample_pods =
     [\<lparr> spec_VolumePath = ''[ds1] kubevols/a.vmdk'', spec_StoragePolicyName = '''' \<rparr>,
      \<lparr> spec_VolumePath = ''[ds1] kubevols/b.vmdk'', spec_StoragePolicyName = '''' \<rparr>,
      \<lparr> spec_VolumePath = ''[ds1] kubevols/c.vmdk'', spec_StoragePolicyName = '''' \<rparr>]"
  by (simp add: inline_refs_def sample_pods_def pod_with_def volume_refs_def inline_volume_def
      claim_volume_def vmdk_def List.map_filter_simps)

lemma sample_answers:
  "fst (serve counting_service 0 (inline_refs sample_pods)) =
     [(\<lparr> spec_VolumePath = ''[ds1] kubevols/a.vmdk'', spec_StoragePolicyName = '''' \<rparr>, Inr ''vol-a''),
      (\<lparr> spec_VolumePath = ''[ds1] kubevols/b.vmdk'', spec_StoragePolicyName = '''' \<rparr>,
         Inl (Error ''volume not registered'')),
      (\<lparr> spec_VolumePath = ''[ds1] kubevols/c.vmdk'', spec_StoragePolicyName = '''' \<rparr>, Inr ''vol-c'')]"
  by (simp add: sample_refs counting_service_def)

theorem fullSyncGetInlineMigratedVolumesInfo_result_witness:
  "fst (fullSyncGetInlineMigratedVolumesInfo counting_service 0 (Inr sample_pods) True) =
     (Some [''vol-a'' \<mapsto> ''[ds1] kubevols/a.vmdk'', ''vol-c'' \<mapsto> ''[ds1] kubevols/c.vmdk''], None) \<and>
   logged (snd (fullSyncGetInlineMigratedVolumesInfo counting_service 0 (Inr sample_pods) True)) = [Warnf] \<and>
   length (lookups (snd (fullSyncGetInlineMigratedVolumesInfo counting_service 0 (Inr sample_pods) True))) = 3 \<and>
   fst (fullSyncGetInlineMigratedVolumesInfo counting_service 0 (Inr sample_pods) False) =
     (Some Map.empty, None) \<and>
   fst (fullSyncGetInlineMigratedVolumesInfo counting_service 0 (Inl (Error ''cache not synced'')) True) =
     (None, Some (Error ''cache not synced''))"
proof -
  note t = fullSyncGetInlineMigratedVolumesInfo_result
             [where getVolumeID = counting_service and m = 0 and allPods = sample_pods
                and err = "Error ''cache not synced''" and migrationFeatureState = True]
  from t obtain inlineVolumes answers where
    r: "fst (fullSyncGetInlineMigratedVolumesInfo counting_service 0 (Inr sample_pods) True) =
          (Some inlineVolumes, None)"
    and l: "lookups (snd (fullSyncGetInlineMigratedVolumesInfo counting_service 0 (Inr sample_pods) True)) =
          answers"
    and a: "answers = fst (serve counting_service 0 (inline_refs sample_pods))"
    and m: "inlineVolumes = map_of (rev (resolved answers))"
    and w: "logged (snd (fullSyncGetInlineMigratedVolumesInfo counting_service 0 (Inr sample_pods) True)) =
          replicate (failures answers) Warnf"
    by blast
  from m a have "inlineVolumes =
      [''vol-a'' \<mapsto> ''[ds1] kubevols/a.vmdk'', ''vol-c'' \<mapsto> ''[ds1] kubevols/c.vmdk'']"
    by (simp add: sample_answers)
  moreover from w a have
    "logged (snd (fullSyncGetInlineMigratedVolumesInfo counting_service 0 (Inr sample_pods) True)) = [Warnf]"
    by (simp add: sample_answers)
  moreover from l a have
    "length (lookups (snd (fullSyncGetInlineMigratedVolumesInfo counting_service 0 (Inr sample_pods) True))) = 3"
    by (simp add: sample_answers)
  ultimately show ?thesis
    using r t by simp
qed

end
